theory Spec2Isabelle
  imports Complex_Main "HOL-Library.AList"
begin

section \<open>Utilities: phone-number sanitising and the rate limiter\<close>

subsection \<open>PhoneValidator\<close>

text \<open>
  JavaScript strings are modelled as \<^typ>\<open>string\<close>. The regular expression
  \<^verbatim>\<open>/[^\d+]/g\<close> matches every character that is neither an ASCII digit nor
  \<^verbatim>\<open>+\<close>; \<^verbatim>\<open>replace\<close> with the empty string deletes all of them.
\<close>

definition is_digit :: "char \<Rightarrow> bool" where
  "is_digit c = (c \<in> set ''0123456789'')"

definition startsWith :: "string \<Rightarrow> string \<Rightarrow> bool" where
  "startsWith s p = (take (length p) s = p)"

definition sanitize :: "string \<Rightarrow> string" where
  "sanitize phoneNumber =
     (let cleaned = filter (\<lambda>c. is_digit c \<or> c = CHR ''+'') phoneNumber
      in if startsWith cleaned ''+'' then cleaned else ''+1'' @ cleaned)"

text \<open>
  \<^verbatim>\<open>PHONE_REGEX = /^\+[1-9]\d{1,14}$/\<close>: a plus sign, one digit from 1 to 9, then
  between one and fourteen further digits.
\<close>

definition isValid :: "string \<Rightarrow> bool" where
  "isValid phoneNumber =
     (case phoneNumber of
        p # d # rest \<Rightarrow>
          p = CHR ''+'' \<and> d \<in> set ''123456789'' \<and>
          1 \<le> length rest \<and> length rest \<le> 14 \<and> list_all is_digit rest
      | _ \<Rightarrow> False)"

subsection \<open>RateLimiter\<close>

text \<open>
  The limiter keeps, per identifier, a counter and the time of the last admitted attempt
  (\<^verbatim>\<open>{ count, lastAttempt }\<close>). \<^verbatim>\<open>new Date()\<close> is an input of the model:
  \<open>check\<close> takes the current time in milliseconds. An in-place mutation of the entry
  object is a map update, since the map holds the only reference to it.
\<close>

record RateLimitEntry =
  count :: int
  lastAttempt :: int

record RateLimiter =
  attempts :: "string \<rightharpoonup> RateLimitEntry"
  maxAttempts :: int
  windowMs :: int

text \<open>
  \<^verbatim>\<open>constructor(maxAttempts = 5, windowMs = 60000)\<close>: an omitted argument
  (\<open>None\<close>) takes its default.
\<close>

definition new_RateLimiter :: "int option \<Rightarrow> int option \<Rightarrow> RateLimiter" where
  "new_RateLimiter m w =
     \<lparr>attempts = Map.empty,
      maxAttempts = (case m of None \<Rightarrow> 5 | Some m' \<Rightarrow> m'),
      windowMs = (case w of None \<Rightarrow> 60000 | Some w' \<Rightarrow> w')\<rparr>"

definition check :: "RateLimiter \<Rightarrow> string \<Rightarrow> int \<Rightarrow> bool \<times> RateLimiter" where
  "check rl identifier now =
     (case attempts rl identifier of
        None \<Rightarrow>
          (True, rl\<lparr>attempts := (attempts rl)(identifier \<mapsto> \<lparr>count = 1, lastAttempt = now\<rparr>)\<rparr>)
      | Some a \<Rightarrow>
          if now - lastAttempt a > windowMs rl then
            (True, rl\<lparr>attempts := (attempts rl)(identifier \<mapsto> \<lparr>count = 1, lastAttempt = now\<rparr>)\<rparr>)
          else if count a \<ge> maxAttempts rl then (False, rl)
          else
            (True, rl\<lparr>attempts :=
               (attempts rl)(identifier \<mapsto> \<lparr>count = count a + 1, lastAttempt = now\<rparr>)\<rparr>))"

text \<open>
  A sequence of calls \<open>(identifier, time)\<close> issued against one limiter, with the answer
  of each call.
\<close>

fun check_all :: "RateLimiter \<Rightarrow> (string \<times> int) list \<Rightarrow> bool list" where
  "check_all rl [] = []"
| "check_all rl ((i, t) # cs) = (let (r, rl') = check rl i t in r # check_all rl' cs)"

text \<open>
  \<^verbatim>\<open>cleanup()\<close> deletes every entry whose last attempt is more than an hour old;
  \<^verbatim>\<open>clear()\<close> empties the map.
\<close>

definition rl_cleanup :: "RateLimiter \<Rightarrow> int \<Rightarrow> RateLimiter" where
  "rl_cleanup rl now =
     (let oneHourAgo = now - 3600000
      in rl\<lparr>attempts := (\<lambda>k. case attempts rl k of
                                None \<Rightarrow> None
                              | Some a \<Rightarrow> if lastAttempt a < oneHourAgo then None else Some a)\<rparr>)"

definition rl_clear :: "RateLimiter \<Rightarrow> RateLimiter" where
  "rl_clear rl = rl\<lparr>attempts := Map.empty\<rparr>"

section \<open>The voice-markup generator\<close>

text \<open>
  The markup is built with the carrier library's \<^verbatim>\<open>VoiceResponse\<close>, which is not
  part of the repository. A document is modelled as the tree the builder calls
  construct: a list of verbs in the order they were appended, a \<^verbatim>\<open>Dial\<close> verb
  carrying its attributes and the nouns nested in it. \<^verbatim>\<open>toString()\<close> serialises
  that tree; the model returns the tree itself. \<^verbatim>\<open>response.dial(...)\<close> appends the
  verb at once and returns a handle to it, modelled as the verb's position in the
  document.
\<close>

datatype noun = Client string | Number string

record DialAttributes =
  callerId :: "string option"
  timeout :: "int option"
  action :: "string option"
  answerOnBridge :: "bool option"

record SayAttributes =
  voice :: string
  language :: string

datatype verb = Say "SayAttributes option" string | Dial DialAttributes "noun list"

type_synonym VoiceResponse = "verb list"

definition createResponse :: VoiceResponse where
  "createResponse = []"

definition say :: "VoiceResponse \<Rightarrow> SayAttributes option \<Rightarrow> string \<Rightarrow> VoiceResponse" where
  "say response attrs message = response @ [Say attrs message]"

definition dial :: "VoiceResponse \<Rightarrow> DialAttributes \<Rightarrow> VoiceResponse \<times> nat" where
  "dial response attrs = (response @ [Dial attrs []], length response)"

fun add_noun :: "noun \<Rightarrow> verb \<Rightarrow> verb" where
  "add_noun n (Dial attrs ns) = Dial attrs (ns @ [n])"
| "add_noun n (Say attrs message) = Say attrs message"

definition dial_client :: "VoiceResponse \<Rightarrow> nat \<Rightarrow> string \<Rightarrow> VoiceResponse" where
  "dial_client response d name =
     (if d < length response then response[d := add_noun (Client name) (response ! d)]
      else response)"

definition dial_number :: "VoiceResponse \<Rightarrow> nat \<Rightarrow> string \<Rightarrow> VoiceResponse" where
  "dial_number response d phoneNumber =
     (if d < length response then response[d := add_noun (Number phoneNumber) (response ! d)]
      else response)"

text \<open>
  \<^verbatim>\<open>String.prototype.replace\<close> with a string pattern replaces the first occurrence
  only. The replacement used in the source is the empty string, so the special
  replacement patterns play no role.
\<close>

fun replace_first :: "string \<Rightarrow> string \<Rightarrow> string \<Rightarrow> string" where
  "replace_first pat rep [] = (if pat = [] then rep else [])"
| "replace_first pat rep (c # cs) =
     (if startsWith (c # cs) pat then rep @ drop (length pat) (c # cs)
      else c # replace_first pat rep cs)"

definition generateOutboundCall :: "string \<Rightarrow> string \<Rightarrow> VoiceResponse" where
  "generateOutboundCall to_addr from_addr =
     (let response = createResponse
      in if startsWith to_addr ''client:'' then
           (let (response, d) =
                  dial response \<lparr>callerId = Some from_addr, timeout = Some 30, action = None,
                                 answerOnBridge = Some True\<rparr>
            in dial_client response d (replace_first ''client:'' [] to_addr))
         else
           (let (response, d) =
                  dial response \<lparr>callerId = Some from_addr, timeout = Some 30, action = None,
                                 answerOnBridge = Some True\<rparr>
            in dial_number response d to_addr))"

definition alice_en_US :: SayAttributes where
  "alice_en_US = \<lparr>voice = ''alice'', language = ''en-US''\<rparr>"

definition hold_announcement :: string where
  "hold_announcement = ''Please hold while we connect your call.''"

definition unavailable_announcement :: string where
  "unavailable_announcement =
     ''Sorry, no one is available to take your call right now. Please try again later.''"

text \<open>
  \<^verbatim>\<open>clientIdentity?: string | null\<close>: \<open>None\<close> stands for \<^verbatim>\<open>null\<close> and
  \<^verbatim>\<open>undefined\<close>. The test \<^verbatim>\<open>if (clientIdentity)\<close> is JavaScript truthiness: it
  fails for \<^verbatim>\<open>null\<close>, \<^verbatim>\<open>undefined\<close> and the empty string.
\<close>

definition generateIncomingCall :: "string option \<Rightarrow> VoiceResponse" where
  "generateIncomingCall clientIdentity =
     (let response = createResponse;
          response = say response (Some alice_en_US) hold_announcement;
          (response, d) =
             dial response \<lparr>callerId = None, timeout = Some 30,
                            action = Some ''/api/v1/test-talk/dial-status'',
                            answerOnBridge = Some True\<rparr>
      in case clientIdentity of
           Some name \<Rightarrow>
             if name \<noteq> [] then dial_client response d name
             else say response (Some alice_en_US) unavailable_announcement
         | None \<Rightarrow> say response (Some alice_en_US) unavailable_announcement)"

definition apology_announcement :: string where
  "apology_announcement = ''The call could not be completed. Please try again later.''"

definition thank_you_announcement :: string where
  "thank_you_announcement = ''Thank you for calling. Goodbye.''"

definition call_ended_announcement :: string where
  "call_ended_announcement = ''Call ended.''"

definition generateDialStatus :: "string \<Rightarrow> VoiceResponse" where
  "generateDialStatus dialStatus =
     (let response = createResponse
      in if dialStatus = ''no-answer'' \<or> dialStatus = ''busy'' \<or> dialStatus = ''failed'' then
           say response None apology_announcement
         else if dialStatus = ''completed'' then say response None thank_you_announcement
         else say response None call_ended_announcement)"

text \<open>What a document contains: its announcements, its dial verbs, its dial targets.\<close>

fun announcements :: "VoiceResponse \<Rightarrow> string list" where
  "announcements [] = []"
| "announcements (Say attrs message # vs) = message # announcements vs"
| "announcements (Dial attrs ns # vs) = announcements vs"

fun dial_verbs :: "VoiceResponse \<Rightarrow> DialAttributes list" where
  "dial_verbs [] = []"
| "dial_verbs (Say attrs message # vs) = dial_verbs vs"
| "dial_verbs (Dial attrs ns # vs) = attrs # dial_verbs vs"

fun dial_targets :: "VoiceResponse \<Rightarrow> noun list" where
  "dial_targets [] = []"
| "dial_targets (Say attrs message # vs) = dial_targets vs"
| "dial_targets (Dial attrs ns # vs) = ns @ dial_targets vs"

section \<open>The call service\<close>

subsection \<open>Data\<close>

text \<open>
  A JavaScript number that came out of \<^verbatim>\<open>parseInt\<close> is an integer or
  \<^verbatim>\<open>NaN\<close>. Dates are milliseconds since the epoch.
\<close>

datatype jsnum = NaN | Num int

datatype call_type = browser_to_phone | phone_to_browser

record ActiveCall =
  sid :: string
  callTo :: string
  callFrom :: string
  callType :: call_type
  status :: string
  createdAt :: int
  duration :: "jsnum option"
  lastUpdated :: "int option"

text \<open>
  The webhook payload \<^verbatim>\<open>CallStatus\<close>. A string field that is missing from the
  payload reads as falsy, like the empty string, and is modelled by it; the optional
  \<^verbatim>\<open>Duration\<close> is an option.
\<close>

record CallStatus =
  CallSid :: string
  CallStatus :: string
  Duration :: "string option"
  From :: string
  To :: string
  Direction :: string

text \<open>
  \<^verbatim>\<open>Partial<ActiveCall>\<close>: the own properties of the object, in order. A property
  that is present with the value \<^verbatim>\<open>undefined\<close> is still copied by the spread
  \<^verbatim>\<open>{ ...existingCall, ...updates }\<close>.
\<close>

datatype field_update =
    SetSid string
  | SetTo string
  | SetFrom string
  | SetType call_type
  | SetStatus string
  | SetCreatedAt int
  | SetDuration "jsnum option"
  | SetLastUpdated "int option"

fun apply_update :: "field_update \<Rightarrow> ActiveCall \<Rightarrow> ActiveCall" where
  "apply_update (SetSid v) c = c\<lparr>sid := v\<rparr>"
| "apply_update (SetTo v) c = c\<lparr>callTo := v\<rparr>"
| "apply_update (SetFrom v) c = c\<lparr>callFrom := v\<rparr>"
| "apply_update (SetType v) c = c\<lparr>callType := v\<rparr>"
| "apply_update (SetStatus v) c = c\<lparr>status := v\<rparr>"
| "apply_update (SetCreatedAt v) c = c\<lparr>createdAt := v\<rparr>"
| "apply_update (SetDuration v) c = c\<lparr>duration := v\<rparr>"
| "apply_update (SetLastUpdated v) c = c\<lparr>lastUpdated := v\<rparr>"

definition spread :: "ActiveCall \<Rightarrow> field_update list \<Rightarrow> ActiveCall" where
  "spread existingCall updates = fold apply_update updates existingCall"

text \<open>
  The registry \<^verbatim>\<open>activeCalls\<close> is a \<^verbatim>\<open>Map<string, ActiveCall>\<close>, which iterates in
  insertion order: an association list with one pair per key. \<^verbatim>\<open>set\<close> replaces the
  value of a key in place or appends a new pair (\<^const>\<open>AList.update\<close>), \<^verbatim>\<open>delete\<close>
  removes the pair (\<^const>\<open>AList.delete\<close>), \<^verbatim>\<open>get\<close> is \<^const>\<open>map_of\<close>.
\<close>

type_synonym registry = "(string \<times> ActiveCall) list"

record TestTalkService =
  activeCalls :: registry
  rateLimiter :: RateLimiter

definition new_TestTalkService :: TestTalkService where
  "new_TestTalkService =
     \<lparr>activeCalls = [], rateLimiter = new_RateLimiter (Some 5) (Some 60000)\<rparr>"

subsection \<open>The external carrier\<close>

text \<open>
  The carrier client is outside the repository. A request either resolves (for a
  created call, with the call's sid) or rejects with a message; the carrier is a
  parameter of every operation that contacts it, and the operation returns the
  requests it made. A request to create a call carries the markup address, the
  destination, the caller and the status-callback address (the list of callback
  events and the method are constants of the source); a request to update a call
  carries the call's sid and the new status.
\<close>

datatype carrier_request =
    CreateCall string string string string
  | UpdateCall string string

datatype carrier_outcome = Resolved string | Rejected string

type_synonym carrier = "carrier_request \<Rightarrow> carrier_outcome"

datatype http_error = BadRequestException string | InternalServerErrorException string

subsection \<open>Registry helpers\<close>

definition trackActiveCall :: "string \<Rightarrow> ActiveCall \<Rightarrow> registry \<Rightarrow> registry" where
  "trackActiveCall callSid callData calls = AList.update callSid callData calls"

definition updateActiveCall :: "string \<Rightarrow> field_update list \<Rightarrow> registry \<Rightarrow> registry" where
  "updateActiveCall callSid updates calls =
     (case map_of calls callSid of
        Some existingCall \<Rightarrow> AList.update callSid (spread existingCall updates) calls
      | None \<Rightarrow> calls)"

subsection \<open>Operations\<close>

text \<open>
  \<^verbatim>\<open>makeBrowserToPhoneCall\<close>. The limiter is consulted at time \<open>now\<close>, before the
  carrier is contacted; the session is tracked with the time \<open>created\<close> once the
  carrier has answered. The configured phone number and the current times are
  inputs. The result is the error thrown or the sid of the call. The function writes
  the registry once, after the awaited carrier request, so the suspension at the
  request is not modelled.
\<close>

definition makeBrowserToPhoneCall ::
  "carrier \<Rightarrow> string \<Rightarrow> string \<Rightarrow> string \<Rightarrow> string \<Rightarrow> int \<Rightarrow> int \<Rightarrow> TestTalkService
     \<Rightarrow> (http_error + string) \<times> carrier_request list \<times> TestTalkService" where
  "makeBrowserToPhoneCall carr phoneNumber to_addr from_addr baseUrl now created svc =
     (if to_addr = [] \<or> from_addr = [] then
        (Inl (BadRequestException ''Both to and from parameters are required''), [], svc)
      else
        let sanitizedTo = sanitize to_addr; sanitizedFrom = sanitize from_addr
        in if \<not> isValid sanitizedTo then
             (Inl (BadRequestException ''Invalid destination phone number format''), [], svc)
           else
             let (admitted, rl) = check (rateLimiter svc) sanitizedFrom now;
                 svc = svc\<lparr>rateLimiter := rl\<rparr>
             in if \<not> admitted then
                  (Inl (BadRequestException ''Too many call attempts. Please try again later.''),
                   [], svc)
                else
                  let webhookBaseUrl = (if baseUrl \<noteq> [] then baseUrl else ''http://localhost:3000'');
                      request = CreateCall (webhookBaseUrl @ ''/api/v1/test-talk/voice'') sanitizedTo
                                  phoneNumber (webhookBaseUrl @ ''/api/v1/test-talk/call-status'')
                  in case carr request of
                       Rejected message \<Rightarrow>
                         (Inl (InternalServerErrorException (''Failed to make call: '' @ message)),
                          [request], svc)
                     | Resolved callSid \<Rightarrow>
                         (Inr callSid, [request],
                          svc\<lparr>activeCalls :=
                            trackActiveCall callSid
                              \<lparr>sid = callSid, callTo = sanitizedTo, callFrom = sanitizedFrom,
                               callType = browser_to_phone, status = ''initiated'',
                               createdAt = created, duration = None, lastUpdated = None\<rparr>
                              (activeCalls svc)\<rparr>))"

definition terminal_statuses :: "string list" where
  "terminal_statuses = [''completed'', ''busy'', ''failed'', ''no-answer'', ''canceled'']"

text \<open>
  \<^verbatim>\<open>handleCallStatusUpdate\<close>. \<^verbatim>\<open>parseInt\<close> is a parameter. Nothing in the body
  throws, so the surrounding \<^verbatim>\<open>try\<close> never reaches its handler and the function
  always returns normally with the new state.
\<close>

definition handleCallStatusUpdate ::
  "(string \<Rightarrow> jsnum) \<Rightarrow> CallStatus \<Rightarrow> int \<Rightarrow> TestTalkService \<Rightarrow> TestTalkService" where
  "handleCallStatusUpdate parseInt callStatus now svc =
     (if CallSid callStatus = [] then svc
      else
        let calls = updateActiveCall (CallSid callStatus)
                      [SetStatus (CallStatus callStatus),
                       SetDuration (case Duration callStatus of
                                      None \<Rightarrow> None
                                    | Some d \<Rightarrow> if d \<noteq> [] then Some (parseInt d) else None),
                       SetLastUpdated (Some now)]
                      (activeCalls svc)
        in if CallStatus callStatus \<in> set terminal_statuses then
             svc\<lparr>activeCalls := AList.delete (CallSid callStatus) calls\<rparr>
           else svc\<lparr>activeCalls := calls\<rparr>)"

text \<open>
  \<^verbatim>\<open>endCall\<close>: the answer, the requests sent to the carrier, the new state. A
  rejected carrier request leaves the \<^verbatim>\<open>try\<close> block before the deletion.
\<close>

definition endCall ::
  "carrier \<Rightarrow> string \<Rightarrow> TestTalkService \<Rightarrow> bool \<times> carrier_request list \<times> TestTalkService" where
  "endCall carr callSid svc =
     (if callSid = [] then (False, [], svc)
      else
        let request = UpdateCall callSid ''completed''
        in case carr request of
             Rejected message \<Rightarrow> (False, [request], svc)
           | Resolved r \<Rightarrow>
               (True, [request], svc\<lparr>activeCalls := AList.delete callSid (activeCalls svc)\<rparr>))"

text \<open>\<^verbatim>\<open>cleanup\<close>, run when the module is destroyed.\<close>

definition cleanup :: "TestTalkService \<Rightarrow> TestTalkService" where
  "cleanup svc = svc\<lparr>activeCalls := [], rateLimiter := rl_clear (rateLimiter svc)\<rparr>"

subsection \<open>Statistics\<close>

text \<open>
  \<^verbatim>\<open>callsByStatus\<close> is a plain object \<^verbatim>\<open>{}\<close> used as a dictionary, keyed by the
  status strings of the sessions. A read of a key the object does not own falls
  through to \<^verbatim>\<open>Object.prototype\<close>: for the names below it yields an object or a
  function, for every other name \<^verbatim>\<open>undefined\<close>. A property of the object holds a
  number, or a string once a number was added to something that is not a number; the
  contents of such a string depend on the engine's text for a built-in function and
  are not modelled (it is never empty: it ends in \<^verbatim>\<open>1\<close>).
\<close>

datatype property = Count nat | Text

definition object_prototype_names :: "string list" where
  "object_prototype_names =
     [''__proto__'', ''constructor'', ''hasOwnProperty'', ''isPrototypeOf'',
      ''propertyIsEnumerable'', ''toLocaleString'', ''toString'', ''valueOf'',
      ''__defineGetter__'', ''__defineSetter__'', ''__lookupGetter__'', ''__lookupSetter__'']"

text \<open>
  \<^verbatim>\<open>obj[key] = (obj[key] || 0) + 1\<close>. An own number grows by one; an own string has
  \<^verbatim>\<open>1\<close> appended. For a key the object does not own: an inherited member is truthy,
  so the sum is a string, which is stored as an own property, except under
  \<^verbatim>\<open>__proto__\<close>, whose setter ignores a value that is not an object; any other key
  starts at one.
\<close>

definition count_key :: "(string \<rightharpoonup> property) \<Rightarrow> string \<Rightarrow> (string \<rightharpoonup> property)" where
  "count_key obj key =
     (case obj key of
        Some (Count n) \<Rightarrow> obj(key \<mapsto> Count (n + 1))
      | Some Text \<Rightarrow> obj(key \<mapsto> Text)
      | None \<Rightarrow>
          if key = ''__proto__'' then obj
          else if key \<in> set object_prototype_names then obj(key \<mapsto> Text)
          else obj(key \<mapsto> Count 1))"

text \<open>
  \<^verbatim>\<open>callsByType\<close> is keyed by the two literals of the type \<^verbatim>\<open>ActiveCall['type']\<close>,
  neither of which is a member of \<^verbatim>\<open>Object.prototype\<close>: a missing key starts at one.
\<close>

fun or_zero :: "nat option \<Rightarrow> nat" where
  "or_zero None = 0"
| "or_zero (Some n) = n"

definition increment :: "('a \<Rightarrow> nat option) \<Rightarrow> 'a \<Rightarrow> 'a \<Rightarrow> nat option" where
  "increment counts key = counts(key := Some (or_zero (counts key) + 1))"

text \<open>
  The numbers of the loop are IEEE doubles. The sum of two durations and the quotient
  of the total by the number of counted sessions are the double sum and the double
  quotient: \<open>fadd\<close> and \<open>fdiv\<close>, parameters of the model, the quotient given as the
  rational number that the resulting double is. The counter of sessions is exact.
\<close>

record CallStatistics =
  totalActiveCalls :: nat
  callsByStatus :: "string \<rightharpoonup> property"
  callsByType :: "call_type \<rightharpoonup> nat"
  averageCallDuration :: rat

text \<open>
  The accumulators of the \<^verbatim>\<open>forEach\<close> loop. The test \<^verbatim>\<open>call.duration\<close> is
  truthiness: \<^verbatim>\<open>undefined\<close>, \<^verbatim>\<open>NaN\<close> and \<^verbatim>\<open>0\<close> all fail it.
\<close>

record stats_acc =
  byStatus :: "string \<rightharpoonup> property"
  byType :: "call_type \<rightharpoonup> nat"
  totalDuration :: int
  completedCalls :: nat

fun truthy_duration :: "jsnum option \<Rightarrow> int option" where
  "truthy_duration None = None"
| "truthy_duration (Some NaN) = None"
| "truthy_duration (Some (Num n)) = (if n = 0 then None else Some n)"

definition stats_step :: "(int \<Rightarrow> int \<Rightarrow> int) \<Rightarrow> stats_acc \<Rightarrow> ActiveCall \<Rightarrow> stats_acc" where
  "stats_step fadd acc call =
     (let acc = acc\<lparr>byStatus := count_key (byStatus acc) (status call),
                    byType := increment (byType acc) (callType call)\<rparr>
      in if status call = ''completed'' then
           (case truthy_duration (duration call) of
              Some d \<Rightarrow> acc\<lparr>totalDuration := fadd (totalDuration acc) d,
                            completedCalls := completedCalls acc + 1\<rparr>
            | None \<Rightarrow> acc)
         else acc)"

fun stats_loop :: "(int \<Rightarrow> int \<Rightarrow> int) \<Rightarrow> stats_acc \<Rightarrow> ActiveCall list \<Rightarrow> stats_acc" where
  "stats_loop fadd acc [] = acc"
| "stats_loop fadd acc (call # calls) = stats_loop fadd (stats_step fadd acc call) calls"

definition getCallStatistics ::
  "(int \<Rightarrow> int \<Rightarrow> int) \<Rightarrow> (int \<Rightarrow> nat \<Rightarrow> rat) \<Rightarrow> TestTalkService \<Rightarrow> CallStatistics" where
  "getCallStatistics fadd fdiv svc =
     (let calls = map snd (activeCalls svc);
          acc = stats_loop fadd \<lparr>byStatus = Map.empty, byType = Map.empty, totalDuration = 0,
                                 completedCalls = 0\<rparr> calls
      in \<lparr>totalActiveCalls = length calls,
          callsByStatus = byStatus acc,
          callsByType = byType acc,
          averageCallDuration =
            (if completedCalls acc > 0
             then fdiv (totalDuration acc) (completedCalls acc) else 0)\<rparr>)"

subsection \<open>Reachable states\<close>

text \<open>
  The operations that change the state of the service, and the service run from its
  initial state over a sequence of them. An operation that contacts the carrier
  carries the carrier's behaviour at that moment, so that the carrier may answer
  differently from one operation to the next. The configured phone number and
  \<^verbatim>\<open>parseInt\<close> are fixed for a run.
\<close>

datatype operation =
    MakeCall carrier string string string int int
  | StatusUpdate CallStatus int
  | EndCall carrier string
  | LimiterSweep int
  | Destroy

fun step :: "string \<Rightarrow> (string \<Rightarrow> jsnum) \<Rightarrow> TestTalkService \<Rightarrow> operation \<Rightarrow> TestTalkService" where
  "step phoneNumber parseInt svc (MakeCall carr to_addr from_addr baseUrl now created) =
     snd (snd (makeBrowserToPhoneCall carr phoneNumber to_addr from_addr baseUrl now created svc))"
| "step phoneNumber parseInt svc (StatusUpdate callStatus now) =
     handleCallStatusUpdate parseInt callStatus now svc"
| "step phoneNumber parseInt svc (EndCall carr callSid) = snd (snd (endCall carr callSid svc))"
| "step phoneNumber parseInt svc (LimiterSweep now) =
     svc\<lparr>rateLimiter := rl_cleanup (rateLimiter svc) now\<rparr>"
| "step phoneNumber parseInt svc Destroy = cleanup svc"

definition run :: "string \<Rightarrow> (string \<Rightarrow> jsnum) \<Rightarrow> operation list \<Rightarrow> TestTalkService" where
  "run phoneNumber parseInt ops = foldl (step phoneNumber parseInt) new_TestTalkService ops"

section \<open>Notions used in the statements\<close>

subsection \<open>The limiter over a sequence of calls\<close>

text \<open>
  The times of the calls of one identifier that were admitted, and membership of a
  time in the closed interval of a given length that starts at a given time.
\<close>

definition admitted_times :: "string \<Rightarrow> (string \<times> int) list \<Rightarrow> bool list \<Rightarrow> int list" where
  "admitted_times ident calls answers =
     map (snd \<circ> fst) (filter (\<lambda>((i, t), r). i = ident \<and> r) (zip calls answers))"

definition in_window :: "int \<Rightarrow> int \<Rightarrow> int \<Rightarrow> bool" where
  "in_window start len t = (start \<le> t \<and> t \<le> start + len)"

text \<open>
  What the proof of the rolling-window bound carries along: \<open>window_ok\<close> is the bound
  itself for a list of admission times; \<open>limiter_inv\<close> ties the entry of an identifier
  to its admissions so far, split into those of earlier runs and those counted by the
  entry.
\<close>

definition window_ok :: "int \<Rightarrow> int \<Rightarrow> int list \<Rightarrow> bool" where
  "window_ok m w ts = (\<forall>start. int (length (filter (in_window start w) ts)) \<le> m)"

definition limiter_inv :: "int \<Rightarrow> int \<Rightarrow> RateLimitEntry option \<Rightarrow> int list \<Rightarrow> bool" where
  "limiter_inv m w entry past =
     (case entry of
        None \<Rightarrow> past = []
      | Some a \<Rightarrow>
          (\<exists>old cur. past = old @ cur \<and> int (length cur) = count a \<and> count a \<le> m \<and>
             (\<forall>v \<in> set past. v \<le> lastAttempt a) \<and> lastAttempt a \<in> set cur \<and>
             (\<forall>u \<in> set old. \<forall>v \<in> set cur. u + w < v) \<and> window_ok m w old))"

text \<open>
  The limiter as the specification words it, for comparison with \<open>check\<close>: an entry
  holds the number of attempts in the current window and \<open>windowStart\<close>, the time the
  window began. An attempt inside the window is counted and leaves \<open>windowStart\<close>
  where it is; the window is reset once more than \<open>windowMs\<close> has passed since
  \<open>windowStart\<close>.
\<close>

record RateLimitWindow =
  windowCount :: int
  windowStart :: int

definition claimed_check ::
  "int \<Rightarrow> int \<Rightarrow> (string \<rightharpoonup> RateLimitWindow) \<Rightarrow> string \<Rightarrow> int
     \<Rightarrow> bool \<times> (string \<rightharpoonup> RateLimitWindow)" where
  "claimed_check m w windows identifier now =
     (case windows identifier of
        None \<Rightarrow> (True, windows(identifier \<mapsto> \<lparr>windowCount = 1, windowStart = now\<rparr>))
      | Some win \<Rightarrow>
          if now - windowStart win > w then
            (True, windows(identifier \<mapsto> \<lparr>windowCount = 1, windowStart = now\<rparr>))
          else if windowCount win < m then
            (True, windows(identifier \<mapsto> win\<lparr>windowCount := windowCount win + 1\<rparr>))
          else (False, windows))"

fun claimed_check_all ::
  "int \<Rightarrow> int \<Rightarrow> (string \<rightharpoonup> RateLimitWindow) \<Rightarrow> (string \<times> int) list \<Rightarrow> bool list" where
  "claimed_check_all m w windows [] = []"
| "claimed_check_all m w windows ((i, t) # cs) =
     (let (r, windows') = claimed_check m w windows i t in r # claimed_check_all m w windows' cs)"

subsection \<open>Sessions and statistics\<close>

text \<open>A tracked session is live when its status is not a terminal one.\<close>

definition live :: "string \<times> ActiveCall \<Rightarrow> bool" where
  "live entry = (status (snd entry) \<notin> set terminal_statuses)"

text \<open>
  A group count as an entry of a dictionary (a key is absent until it has been
  counted once), and the durations that enter the mean: a session is counted when its
  status is \<open>completed\<close> and its duration is truthy.
\<close>

definition count_entry :: "nat \<Rightarrow> nat option" where
  "count_entry n = (if n = 0 then None else Some n)"

fun counted_duration :: "ActiveCall \<Rightarrow> int list" where
  "counted_duration call =
     (if status call = ''completed'' then
        (case duration call of Some (Num n) \<Rightarrow> if n \<noteq> 0 then [n] else [] | _ \<Rightarrow> [])
      else [])"

text \<open>
  Double arithmetic where it is exact: the sum and the quotient as they are for
  operands and results that doubles represent exactly.
\<close>

definition exact_add :: "int \<Rightarrow> int \<Rightarrow> int" where
  "exact_add a b = a + b"

definition exact_div :: "int \<Rightarrow> nat \<Rightarrow> rat" where
  "exact_div a n = of_int a / of_nat n"

section \<open>Sample data\<close>

definition spaced_calls :: "(string \<times> int) list" where
  "spaced_calls =
     [(''a'', 0), (''a'', 10000), (''a'', 20000), (''a'', 30000), (''a'', 40000), (''a'', 70000)]"

definition calls_across_windows :: "(string \<times> int) list" where
  "calls_across_windows = spaced_calls @ [(''b'', 80000), (''a'', 100001)]"

definition backdated_calls :: "(string \<times> int) list" where
  "backdated_calls =
     [(''a'', 0), (''a'', 0), (''a'', 0), (''a'', 0), (''a'', 0), (''a'', 70000), (''a'', 10000)]"

definition at_limit :: RateLimiter where
  "at_limit =
     (new_RateLimiter None None)
       \<lparr>attempts := [''a'' \<mapsto> \<lparr>count = 5, lastAttempt = 40000\<rparr>]\<rparr>"

definition ringing_call :: ActiveCall where
  "ringing_call =
     \<lparr>sid = ''CA1'', callTo = ''+15559876543'', callFrom = ''+15551234567'',
      callType = browser_to_phone, status = ''ringing'', createdAt = 1000,
      duration = None, lastUpdated = Some 2000\<rparr>"

definition ringing_event :: "string \<Rightarrow> CallStatus" where
  "ringing_event callSid =
     \<lparr>CallSid = callSid, CallStatus = ''ringing'', Duration = None,
      From = ''+15551234567'', To = ''+15559876543'', Direction = ''outbound-api''\<rparr>"

definition completed_event :: "string \<Rightarrow> CallStatus" where
  "completed_event callSid =
     \<lparr>CallSid = callSid, CallStatus = ''completed'', Duration = Some ''42'',
      From = ''+15551234567'', To = ''+15559876543'', Direction = ''outbound-api''\<rparr>"

definition named_event :: "string \<Rightarrow> string \<Rightarrow> CallStatus" where
  "named_event callSid s =
     \<lparr>CallSid = callSid, CallStatus = s, Duration = None,
      From = ''+15551234567'', To = ''+15559876543'', Direction = ''outbound-api''\<rparr>"

definition one_call_service :: TestTalkService where
  "one_call_service = new_TestTalkService\<lparr>activeCalls := [(''CA1'', ringing_call)]\<rparr>"

definition rejecting_carrier :: carrier where
  "rejecting_carrier request = Rejected ''carrier unavailable''"

definition accepting_carrier :: carrier where
  "accepting_carrier request = Resolved ''CA1''"

definition placed_then_ringing :: "operation list" where
  "placed_then_ringing =
     [MakeCall accepting_carrier ''+1 (555) 987-6543'' ''+15551234567'' [] 1000 1001,
      StatusUpdate (ringing_event ''CA1'') 2000]"

definition placed_then_status :: "string \<Rightarrow> operation list" where
  "placed_then_status s =
     [MakeCall accepting_carrier ''+1 (555) 987-6543'' ''+15551234567'' [] 1000 1001,
      StatusUpdate (named_event ''CA1'' s) 2000]"

section \<open>Properties of the rate limiter\<close>

text \<open>
  Claim C1, as stated: an attempt is admitted when more than \<open>windowMs\<close> has passed
  since \<open>windowStart\<close>, the time the window began. The code keeps \<open>lastAttempt\<close>
  instead and moves it at every admitted attempt. Five calls at 0, 10, 20, 30 and 40
  seconds fill the window that began at 0; at 70 seconds more than \<open>windowMs\<close> has
  passed since that window began (and only one attempt was made since the stored
  time, 40 seconds), yet the code refuses the call, 30 seconds after the last admitted
  one. The limiter of the specification's wording admits it.
\<close>

theorem check_window_start_counterexample:
  "check_all (new_RateLimiter None None) spaced_calls = [True, True, True, True, True, False] \<and>
   claimed_check_all 5 60000 Map.empty spaced_calls = [True, True, True, True, True, True]"
  by (simp add: spaced_calls_def check_def claimed_check_def new_RateLimiter_def)

lemma check_answer:
  "fst (check rl i now) \<longleftrightarrow>
     (case attempts rl i of
        None \<Rightarrow> True
      | Some a \<Rightarrow> now - lastAttempt a > windowMs rl \<or> count a < maxAttempts rl)"
  by (auto simp: check_def split: option.splits)

lemma check_admitted:
  "fst (check rl i now) \<Longrightarrow>
   snd (check rl i now) =
     rl\<lparr>attempts := (attempts rl)(i \<mapsto>
          \<lparr>count = (case attempts rl i of
                      None \<Rightarrow> 1
                    | Some a \<Rightarrow> if now - lastAttempt a > windowMs rl then 1 else count a + 1),
           lastAttempt = now\<rparr>)\<rparr>"
  by (auto simp: check_def split: option.splits if_splits)

lemma check_refused: "\<not> fst (check rl i now) \<Longrightarrow> snd (check rl i now) = rl"
  by (auto simp: check_def split: option.splits if_splits)

lemma check_refused_iff:
  "\<not> fst (check rl i now) \<longleftrightarrow>
     (\<exists>a. attempts rl i = Some a \<and> now - lastAttempt a \<le> windowMs rl \<and>
          maxAttempts rl \<le> count a)"
  by (auto simp: check_def split: option.splits)

lemma upt_Suc_shift: "[0..<Suc n] = 0 # map Suc [0..<n]"
  by (simp add: upt_conv_Cons map_Suc_upt del: upt_Suc)

lemma burst_answers:
  assumes "attempts rl i = Some a" and "lo \<le> lastAttempt a"
    and "\<forall>t \<in> set ts. lo \<le> t \<and> t \<le> lo + windowMs rl"
  shows "check_all rl (map (Pair i) ts) =
           map (\<lambda>k. count a + int k < maxAttempts rl) [0..<length ts]"
  using assms
proof (induction ts arbitrary: rl a)
  case Nil
  then show ?case by simp
next
  case (Cons t ts)
  from Cons.prems have inside: "\<not> t - lastAttempt a > windowMs rl" and lo: "lo \<le> t"
    by auto
  show ?case
  proof (cases "count a \<ge> maxAttempts rl")
    case True
    with Cons.prems(1) inside have chk: "check rl i t = (False, rl)"
      by (simp add: check_def)
    have "check_all rl (map (Pair i) ts) =
            map (\<lambda>k. count a + int k < maxAttempts rl) [0..<length ts]"
      using Cons.prems by (intro Cons.IH) auto
    moreover have "map (\<lambda>k. count a + int k < maxAttempts rl) [0..<n] = replicate n False" for n
      using True by (induction n) (simp_all add: replicate_append_same)
    ultimately show ?thesis
      using chk by (simp del: upt_Suc)
  next
    case False
    define a' where "a' = \<lparr>count = count a + 1, lastAttempt = t\<rparr>"
    define rl' where "rl' = rl\<lparr>attempts := (attempts rl)(i \<mapsto> a')\<rparr>"
    from False Cons.prems(1) inside have chk: "check rl i t = (True, rl')"
      by (simp add: check_def rl'_def a'_def)
    have "check_all rl' (map (Pair i) ts) =
            map (\<lambda>k. count a' + int k < maxAttempts rl') [0..<length ts]"
      using Cons.prems(3) lo by (intro Cons.IH) (simp_all add: rl'_def a'_def)
    then have "check_all rl' (map (Pair i) ts) =
            map (\<lambda>k. count a + int (Suc k) < maxAttempts rl) [0..<length ts]"
      by (simp add: rl'_def a'_def add.commute add.left_commute)
    with False chk show ?thesis
      by (simp add: upt_Suc_shift comp_def del: upt_Suc)
  qed
qed

lemma burst_answers_fresh:
  assumes "1 \<le> maxAttempts (new_RateLimiter m w)"
    and "\<forall>t \<in> set ts. t0 \<le> t \<and> t \<le> t0 + windowMs (new_RateLimiter m w)"
  shows "check_all (new_RateLimiter m w) (map (Pair i) (t0 # ts)) =
           map (\<lambda>k. int k < maxAttempts (new_RateLimiter m w)) [0..<Suc (length ts)]"
proof -
  define rl where "rl = new_RateLimiter m w"
  define a where "a = \<lparr>count = 1, lastAttempt = t0\<rparr>"
  define rl' where "rl' = rl\<lparr>attempts := (attempts rl)(i \<mapsto> a)\<rparr>"
  have chk: "check rl i t0 = (True, rl')"
    by (simp add: check_def rl_def rl'_def a_def new_RateLimiter_def)
  have "check_all rl' (map (Pair i) ts) =
          map (\<lambda>k. count a + int k < maxAttempts rl') [0..<length ts]"
    using assms(2) by (intro burst_answers [where lo = t0]) (simp_all add: rl'_def a_def rl_def)
  then have "check_all rl' (map (Pair i) ts) =
          map (\<lambda>k. int (Suc k) < maxAttempts rl) [0..<length ts]"
    by (simp add: rl'_def a_def add.commute)
  with chk assms(1) show ?thesis
    unfolding rl_def [symmetric] by (simp add: upt_Suc_shift comp_def del: upt_Suc)
qed

text \<open>
  Claim C1, amended: the window is measured from the last admitted attempt. The
  defaults are 5 attempts and 60000 ms. For every limiter state, identifier and time,
  \<open>check\<close> answers true exactly when the identifier has no entry, or more than
  \<open>windowMs\<close> has passed since its last admitted attempt, or its count is below
  \<open>maxAttempts\<close>; it then records the attempt: the count restarts at 1 for a new
  entry or after such a gap and grows by one otherwise, and \<open>lastAttempt\<close> becomes
  the current time. It answers false exactly when the identifier has an entry, at
  most \<open>windowMs\<close> has passed since its last admitted attempt and the count has
  reached \<open>maxAttempts\<close>, and then the limiter state is unchanged. On a fresh limiter
  with \<open>maxAttempts \<ge> 1\<close>, calls of one identifier that all fall within \<open>windowMs\<close> of
  the first are answered true for the first \<open>maxAttempts\<close> and false from the next
  one on.
\<close>

theorem check_last_attempt_window:
  "maxAttempts (new_RateLimiter None None) = 5 \<and>
   windowMs (new_RateLimiter None None) = 60000 \<and>
   (fst (check rl i now) \<longleftrightarrow>
      (case attempts rl i of
         None \<Rightarrow> True
       | Some a \<Rightarrow> now - lastAttempt a > windowMs rl \<or> count a < maxAttempts rl)) \<and>
   (fst (check rl i now) \<longrightarrow>
      snd (check rl i now) =
        rl\<lparr>attempts := (attempts rl)(i \<mapsto>
             \<lparr>count = (case attempts rl i of
                         None \<Rightarrow> 1
                       | Some a \<Rightarrow> if now - lastAttempt a > windowMs rl then 1 else count a + 1),
              lastAttempt = now\<rparr>)\<rparr>) \<and>
   (\<not> fst (check rl i now) \<longleftrightarrow>
      (\<exists>a. attempts rl i = Some a \<and> now - lastAttempt a \<le> windowMs rl \<and>
           maxAttempts rl \<le> count a)) \<and>
   (\<not> fst (check rl i now) \<longrightarrow> snd (check rl i now) = rl) \<and>
   (1 \<le> maxAttempts (new_RateLimiter m w) \<and>
    (\<forall>t \<in> set ts. t0 \<le> t \<and> t \<le> t0 + windowMs (new_RateLimiter m w)) \<longrightarrow>
      check_all (new_RateLimiter m w) (map (Pair i) (t0 # ts)) =
        map (\<lambda>k. int k < maxAttempts (new_RateLimiter m w)) [0..<Suc (length ts)])"
proof (intro conjI impI)
  show "maxAttempts (new_RateLimiter None None) = 5"
    and "windowMs (new_RateLimiter None None) = 60000"
    by (simp_all add: new_RateLimiter_def)
next
  show "fst (check rl i now) \<longleftrightarrow>
      (case attempts rl i of
         None \<Rightarrow> True
       | Some a \<Rightarrow> now - lastAttempt a > windowMs rl \<or> count a < maxAttempts rl)"
    by (rule check_answer)
next
  assume "fst (check rl i now)"
  then show "snd (check rl i now) =
        rl\<lparr>attempts := (attempts rl)(i \<mapsto>
             \<lparr>count = (case attempts rl i of
                         None \<Rightarrow> 1
                       | Some a \<Rightarrow> if now - lastAttempt a > windowMs rl then 1 else count a + 1),
              lastAttempt = now\<rparr>)\<rparr>"
    by (rule check_admitted)
next
  show "\<not> fst (check rl i now) \<longleftrightarrow>
      (\<exists>a. attempts rl i = Some a \<and> now - lastAttempt a \<le> windowMs rl \<and>
           maxAttempts rl \<le> count a)"
    by (rule check_refused_iff)
next
  assume "\<not> fst (check rl i now)"
  then show "snd (check rl i now) = rl" by (rule check_refused)
next
  assume "1 \<le> maxAttempts (new_RateLimiter m w) \<and>
    (\<forall>t \<in> set ts. t0 \<le> t \<and> t \<le> t0 + windowMs (new_RateLimiter m w))"
  then show "check_all (new_RateLimiter m w) (map (Pair i) (t0 # ts)) =
        map (\<lambda>k. int k < maxAttempts (new_RateLimiter m w)) [0..<Suc (length ts)]"
    by (intro burst_answers_fresh) simp_all
qed

theorem check_last_attempt_window_witness:
  "\<not> fst (check at_limit ''a'' 70000) \<and>
   snd (check at_limit ''a'' 70000) = at_limit \<and>
   fst (check at_limit ''a'' 100001) \<and>
   attempts (snd (check at_limit ''a'' 100001)) ''a'' = Some \<lparr>count = 1, lastAttempt = 100001\<rparr> \<and>
   fst (check at_limit ''b'' 70000) \<and>
   attempts (snd (check at_limit ''b'' 70000)) ''b'' = Some \<lparr>count = 1, lastAttempt = 70000\<rparr> \<and>
   1 \<le> maxAttempts (new_RateLimiter None None) \<and>
   list_all (\<lambda>t. 0 \<le> t \<and> t \<le> 0 + windowMs (new_RateLimiter None None))
     [10000, 20000, 30000, 40000, 60000] \<and>
   check_all (new_RateLimiter None None)
     (map (Pair ''a'') [0, 10000, 20000, 30000, 40000, 60000]) =
     [True, True, True, True, True, False]"
proof -
  have pos: "1 \<le> maxAttempts (new_RateLimiter None None)"
    by (simp add: new_RateLimiter_def)
  have inside: "\<forall>t \<in> set [10000, 20000, 30000, 40000, 60000].
      (0::int) \<le> t \<and> t \<le> 0 + windowMs (new_RateLimiter None None)"
    by (simp add: new_RateLimiter_def)
  have lim: "attempts at_limit ''a'' = Some \<lparr>count = 5, lastAttempt = 40000\<rparr>"
    "attempts at_limit ''b'' = None" "maxAttempts at_limit = 5" "windowMs at_limit = 60000"
    by (simp_all add: at_limit_def new_RateLimiter_def)
  note refused = check_last_attempt_window
    [where rl = at_limit and i = "''a''" and now = 70000 and m = None and w = None
       and ts = "[10000, 20000, 30000, 40000, 60000]" and ?t0.0 = 0]
  note again = check_last_attempt_window
    [where rl = at_limit and i = "''a''" and now = 100001 and m = None and w = None
       and ts = "[]" and ?t0.0 = 0]
  note other = check_last_attempt_window
    [where rl = at_limit and i = "''b''" and now = 70000 and m = None and w = None
       and ts = "[]" and ?t0.0 = 0]
  show ?thesis
    using refused again other pos inside
    by (simp add: lim list_all_iff upt_conv_Cons del: upt_Suc)
qed

lemma check_params [simp]:
  "maxAttempts (snd (check rl i now)) = maxAttempts rl"
  "windowMs (snd (check rl i now)) = windowMs rl"
  by (simp_all add: check_def split: option.splits)

lemma check_other:
  "i \<noteq> ident \<Longrightarrow> attempts (snd (check rl i now)) ident = attempts rl ident"
  by (simp add: check_def split: option.splits)

lemma window_ok_Nil: "0 \<le> m \<Longrightarrow> window_ok m w []"
  by (simp add: window_ok_def)

lemma window_ok_split:
  assumes old: "window_ok m w old"
    and cur: "int (length cur) \<le> m"
    and gap: "\<forall>u \<in> set old. \<forall>v \<in> set cur. u + w < v"
  shows "window_ok m w (old @ cur)"
  unfolding window_ok_def
proof
  fix start
  show "int (length (filter (in_window start w) (old @ cur))) \<le> m"
  proof (cases "filter (in_window start w) cur = []")
    case True
    with old show ?thesis by (simp add: window_ok_def)
  next
    case False
    then obtain v where v: "v \<in> set cur" "in_window start w v"
      by (auto simp: filter_empty_conv)
    have "\<not> in_window start w u" if "u \<in> set old" for u
    proof -
      from gap that v(1) have "u + w < v" by blast
      with v(2) show ?thesis by (simp add: in_window_def)
    qed
    then have none: "filter (in_window start w) old = []"
      by (simp add: filter_empty_conv)
    have "int (length (filter (in_window start w) cur)) \<le> int (length cur)"
      by simp
    with cur have "int (length (filter (in_window start w) cur)) \<le> m"
      by linarith
    with none show ?thesis by simp
  qed
qed

lemma limiter_inv_window_ok:
  assumes "limiter_inv m w entry past" and "0 \<le> m"
  shows "window_ok m w past"
proof (cases entry)
  case None
  with assms show ?thesis by (simp add: limiter_inv_def window_ok_Nil)
next
  case (Some a)
  with assms(1) obtain old cur where
    "past = old @ cur" "int (length cur) = count a" "count a \<le> m"
    "\<forall>u \<in> set old. \<forall>v \<in> set cur. u + w < v" "window_ok m w old"
    unfolding limiter_inv_def by auto
  then show ?thesis by (simp add: window_ok_split)
qed

lemma check_inv_same:
  assumes inv: "limiter_inv m w (attempts rl ident) past"
    and m: "maxAttempts rl = m" and w: "windowMs rl = w" and pos: "1 \<le> m"
    and le: "\<forall>u \<in> set past. u \<le> now"
  shows "limiter_inv m w (attempts (snd (check rl ident now)) ident)
           (if fst (check rl ident now) then past @ [now] else past)"
proof (cases "attempts rl ident")
  case None
  with inv have "past = []" by (simp add: limiter_inv_def)
  moreover have "\<exists>old cur. [now] = old @ cur \<and> int (length cur) = 1 \<and>
      now \<in> set cur \<and> (\<forall>u \<in> set old. \<forall>v \<in> set cur. u + w < v) \<and> window_ok m w old"
    using pos by (intro exI [of _ "[]"] exI [of _ "[now]"]) (simp add: window_ok_Nil)
  ultimately show ?thesis
    using None pos by (simp add: check_def limiter_inv_def)
next
  case (Some a)
  with inv obtain old cur where oc:
    "past = old @ cur" "int (length cur) = count a" "count a \<le> m"
    "\<forall>v \<in> set past. v \<le> lastAttempt a" "lastAttempt a \<in> set cur"
    "\<forall>u \<in> set old. \<forall>v \<in> set cur. u + w < v" "window_ok m w old"
    unfolding limiter_inv_def by auto
  from oc(1,5) le have last_le: "lastAttempt a \<le> now" by simp
  show ?thesis
  proof (cases "now - lastAttempt a > w")
    case True
    have ok: "window_ok m w past"
      using inv pos by (intro limiter_inv_window_ok [where entry = "attempts rl ident"]) simp_all
    have gap: "\<forall>u \<in> set past. u + w < now"
      using oc(4) True by fastforce
    have "\<exists>old' cur'. past @ [now] = old' @ cur' \<and> int (length cur') = 1 \<and>
        (\<forall>v \<in> set (past @ [now]). v \<le> now) \<and> now \<in> set cur' \<and>
        (\<forall>u \<in> set old'. \<forall>v \<in> set cur'. u + w < v) \<and> window_ok m w old'"
      using ok gap le by (intro exI [of _ past] exI [of _ "[now]"]) simp
    then show ?thesis
      using Some True w pos by (simp add: check_def limiter_inv_def)
  next
    case False
    show ?thesis
    proof (cases "count a \<ge> m")
      case True
      with Some False w m inv show ?thesis by (simp add: check_def)
    next
      case less: False
      have gap: "\<forall>u \<in> set old. \<forall>v \<in> set (cur @ [now]). u + w < v"
      proof (intro ballI)
        fix u v assume u: "u \<in> set old" and v: "v \<in> set (cur @ [now])"
        from oc(6) u oc(5) have "u + w < lastAttempt a" by blast
        with last_le have "u + w < now" by simp
        with oc(6) u v show "u + w < v" by auto
      qed
      have "\<exists>old' cur'. past @ [now] = old' @ cur' \<and> int (length cur') = count a + 1 \<and>
          count a + 1 \<le> m \<and> (\<forall>v \<in> set (past @ [now]). v \<le> now) \<and> now \<in> set cur' \<and>
          (\<forall>u \<in> set old'. \<forall>v \<in> set cur'. u + w < v) \<and> window_ok m w old'"
        using oc(1,2,7) less gap le
        by (intro exI [of _ old] exI [of _ "cur @ [now]"]) simp
      then show ?thesis
        using Some False less w m by (simp add: check_def limiter_inv_def)
    qed
  qed
qed

lemma admitted_times_Cons:
  "admitted_times ident ((i, t) # cs) (r # rs) =
     (if i = ident \<and> r then [t] else []) @ admitted_times ident cs rs"
  by (simp add: admitted_times_def)

lemma check_all_window_ok:
  assumes "limiter_inv m w (attempts rl ident) past"
    and "maxAttempts rl = m" and "windowMs rl = w" and "1 \<le> m"
    and "sorted (map snd calls)"
    and "\<forall>t \<in> set (map snd calls). \<forall>u \<in> set past. u \<le> t"
  shows "window_ok m w (past @ admitted_times ident calls (check_all rl calls))"
  using assms
proof (induction calls arbitrary: rl past)
  case Nil
  then show ?case
    by (simp add: admitted_times_def limiter_inv_window_ok [where entry = "attempts rl ident"])
next
  case (Cons c cs)
  obtain i t where c: "c = (i, t)" by (cases c)
  define rl' where "rl' = snd (check rl i t)"
  define r where "r = fst (check rl i t)"
  define past' where "past' = (if i = ident \<and> r then past @ [t] else past)"
  have chk: "check rl i t = (r, rl')" by (simp add: r_def rl'_def)
  have past_le: "\<forall>u \<in> set past. u \<le> t"
    using Cons.prems(6) c by simp
  have inv': "limiter_inv m w (attempts rl' ident) past'"
  proof (cases "i = ident")
    case True
    with check_inv_same [OF Cons.prems(1-4) past_le] show ?thesis
      by (simp add: rl'_def r_def past'_def)
  next
    case False
    with Cons.prems(1) show ?thesis
      by (simp add: rl'_def past'_def check_other)
  qed
  have params: "maxAttempts rl' = m" "windowMs rl' = w"
    using Cons.prems(2,3) by (simp_all add: rl'_def)
  have sorted': "sorted (map snd cs)"
    using Cons.prems(5) by simp
  have le': "\<forall>t' \<in> set (map snd cs). \<forall>u \<in> set past'. u \<le> t'"
    using Cons.prems(5,6) c by (auto simp: past'_def)
  have eq: "past @ admitted_times ident (c # cs) (check_all rl (c # cs)) =
              past' @ admitted_times ident cs (check_all rl' cs)"
    by (simp add: c chk admitted_times_Cons past'_def)
  have "window_ok m w (past' @ admitted_times ident cs (check_all rl' cs))"
    by (rule Cons.IH [OF inv' params Cons.prems(4) sorted' le'])
  then show ?case
    by (simp only: eq)
qed

text \<open>
  Claim C4, as stated: for every sequence of calls at arbitrary times at most
  \<open>maxAttempts\<close> calls of an identifier are admitted within any interval of length
  \<open>windowMs\<close>. The limiter compares the time of a call with the stored time of the
  last admitted one, so a clock that steps back defeats the bound: with the defaults,
  five calls at time 0, one at 70 seconds (which restarts the count) and one whose
  time reads 10 seconds are all admitted, six of them in the interval from 0 to 60
  seconds. And a limiter created with \<open>maxAttempts = 0\<close> still admits the first call
  of an identifier, since the limit is only tested when an entry exists.
\<close>

theorem rolling_window_counterexample:
  "check_all (new_RateLimiter None None) backdated_calls =
     [True, True, True, True, True, True, True] \<and>
   filter (in_window 0 (windowMs (new_RateLimiter None None)))
     (admitted_times ''a'' backdated_calls (check_all (new_RateLimiter None None) backdated_calls)) =
     [0, 0, 0, 0, 0, 10000] \<and>
   \<not> int (length (filter (in_window 0 (windowMs (new_RateLimiter None None)))
            (admitted_times ''a'' backdated_calls
               (check_all (new_RateLimiter None None) backdated_calls))))
       \<le> maxAttempts (new_RateLimiter None None) \<and>
   check_all (new_RateLimiter (Some 0) None) [(''a'', 0)] = [True] \<and>
   \<not> int (length (filter (in_window 0 (windowMs (new_RateLimiter (Some 0) None)))
            (admitted_times ''a'' [(''a'', 0)]
               (check_all (new_RateLimiter (Some 0) None) [(''a'', 0)]))))
       \<le> maxAttempts (new_RateLimiter (Some 0) None)"
  by (simp add: backdated_calls_def check_def new_RateLimiter_def admitted_times_def
      in_window_def)

text \<open>
  Claim C4, amended. On a limiter created with \<open>maxAttempts \<ge> 1\<close>, for every
  identifier and every sequence of calls whose times do not decrease along the
  sequence, the admitted calls of the identifier whose times lie in any closed
  interval of length \<open>windowMs\<close> number at most \<open>maxAttempts\<close>.
\<close>

theorem rolling_window_admissions:
  assumes "1 \<le> maxAttempts (new_RateLimiter m w)" and "sorted (map snd calls)"
  shows "int (length (filter (in_window start (windowMs (new_RateLimiter m w)))
                  (admitted_times ident calls (check_all (new_RateLimiter m w) calls))))
         \<le> maxAttempts (new_RateLimiter m w)"
proof -
  have "limiter_inv (maxAttempts (new_RateLimiter m w)) (windowMs (new_RateLimiter m w))
          (attempts (new_RateLimiter m w) ident) []"
    by (simp add: limiter_inv_def new_RateLimiter_def)
  from check_all_window_ok [OF this refl refl assms(1) assms(2)]
  show ?thesis by (simp add: window_ok_def)
qed

theorem rolling_window_admissions_witness:
  "1 \<le> maxAttempts (new_RateLimiter None None) \<and>
   sorted (map snd calls_across_windows) \<and>
   check_all (new_RateLimiter None None) calls_across_windows =
     [True, True, True, True, True, False, True, True] \<and>
   admitted_times ''a'' calls_across_windows
     (check_all (new_RateLimiter None None) calls_across_windows) =
     [0, 10000, 20000, 30000, 40000, 100001] \<and>
   int (length (filter (in_window 40001 (windowMs (new_RateLimiter None None)))
                  (admitted_times ''a'' calls_across_windows
                     (check_all (new_RateLimiter None None) calls_across_windows))))
     \<le> maxAttempts (new_RateLimiter None None)"
proof -
  have pos: "1 \<le> maxAttempts (new_RateLimiter None None)"
    by (simp add: new_RateLimiter_def)
  have srt: "sorted (map snd calls_across_windows)"
    by (simp add: calls_across_windows_def spaced_calls_def)
  have answers: "check_all (new_RateLimiter None None) calls_across_windows =
     [True, True, True, True, True, False, True, True]"
    by (simp add: calls_across_windows_def spaced_calls_def check_def new_RateLimiter_def)
  have times: "admitted_times ''a'' calls_across_windows
     [True, True, True, True, True, False, True, True] = [0, 10000, 20000, 30000, 40000, 100001]"
    by (simp add: calls_across_windows_def spaced_calls_def admitted_times_def)
  from rolling_window_admissions [OF pos srt, of 40001 "''a''"] pos srt answers times
  show ?thesis by simp
qed

section \<open>Properties of the phone-number sanitiser\<close>

lemma sanitize_chars: "c \<in> set (sanitize s) \<Longrightarrow> is_digit c \<or> c = CHR ''+''"
  by (auto simp: sanitize_def Let_def is_digit_def split: if_splits)

lemma sanitize_plus: "startsWith (sanitize s) ''+''"
  by (simp add: sanitize_def Let_def startsWith_def)

lemma filter_sanitize:
  "filter (\<lambda>c. is_digit c \<or> c = CHR ''+'') (sanitize s) = sanitize s"
  by (rule filter_True) (use sanitize_chars in blast)

lemma sanitize_idem: "sanitize (sanitize s) = sanitize s"
proof -
  have "sanitize (sanitize s) =
          (if startsWith (sanitize s) ''+'' then sanitize s else ''+1'' @ sanitize s)"
    unfolding sanitize_def [of "sanitize s"] Let_def filter_sanitize ..
  then show ?thesis by (simp add: sanitize_plus)
qed

text \<open>
  Claim C10. For every input string, the result of \<open>sanitize\<close> consists of digits and
  plus signs only and begins with a plus sign; when the cleaned input does not begin
  with a plus sign the result is the cleaned input behind the prefix \<open>+1\<close>; and
  \<open>sanitize\<close> is idempotent.
\<close>

theorem sanitize_shape_idempotent:
  "(\<forall>c \<in> set (sanitize s). is_digit c \<or> c = CHR ''+'') \<and>
   startsWith (sanitize s) ''+'' \<and>
   (\<not> startsWith (filter (\<lambda>c. is_digit c \<or> c = CHR ''+'') s) ''+'' \<longrightarrow>
      sanitize s = ''+1'' @ filter (\<lambda>c. is_digit c \<or> c = CHR ''+'') s) \<and>
   sanitize (sanitize s) = sanitize s"
proof (intro conjI ballI impI)
  fix c assume "c \<in> set (sanitize s)"
  then show "is_digit c \<or> c = CHR ''+''" by (rule sanitize_chars)
next
  show "startsWith (sanitize s) ''+''" by (rule sanitize_plus)
next
  assume "\<not> startsWith (filter (\<lambda>c. is_digit c \<or> c = CHR ''+'') s) ''+''"
  then show "sanitize s = ''+1'' @ filter (\<lambda>c. is_digit c \<or> c = CHR ''+'') s"
    by (simp add: sanitize_def Let_def)
next
  show "sanitize (sanitize s) = sanitize s" by (rule sanitize_idem)
qed

theorem sanitize_shape_idempotent_witness:
  "sanitize ''(555) 123-4567'' = ''+15551234567'' \<and>
   \<not> startsWith (filter (\<lambda>c. is_digit c \<or> c = CHR ''+'') ''(555) 123-4567'') ''+'' \<and>
   list_all (\<lambda>c. is_digit c \<or> c = CHR ''+'') (sanitize ''(555) 123-4567'') \<and>
   startsWith (sanitize ''(555) 123-4567'') ''+'' \<and>
   sanitize (sanitize ''(555) 123-4567'') = sanitize ''(555) 123-4567''"
  using sanitize_shape_idempotent [of "''(555) 123-4567''"]
  by (simp add: sanitize_def startsWith_def is_digit_def)

section \<open>Properties of the markup documents\<close>

lemma startsWith_replace_first:
  "startsWith s p \<Longrightarrow> replace_first p [] s = drop (length p) s"
  by (cases s) (auto simp: startsWith_def)

text \<open>
  Claim C7. For every \<open>to\<close> and \<open>from\<close>, the outbound document is one \<open>Dial\<close> with
  caller id \<open>from\<close>, a timeout of 30 seconds and answer-on-bridge set. When \<open>to\<close>
  starts with \<open>client:\<close> the dial targets the client named by \<open>to\<close> without that
  prefix; otherwise it targets the number \<open>to\<close>.
\<close>

theorem generateOutboundCall_dial:
  "(startsWith to_addr ''client:'' \<longrightarrow>
      generateOutboundCall to_addr from_addr =
        [Dial \<lparr>callerId = Some from_addr, timeout = Some 30, action = None,
               answerOnBridge = Some True\<rparr> [Client (drop 7 to_addr)]]) \<and>
   (\<not> startsWith to_addr ''client:'' \<longrightarrow>
      generateOutboundCall to_addr from_addr =
        [Dial \<lparr>callerId = Some from_addr, timeout = Some 30, action = None,
               answerOnBridge = Some True\<rparr> [Number to_addr]])"
proof -
  have len: "length ''client:'' = 7" by simp
  show ?thesis
    by (simp add: generateOutboundCall_def createResponse_def dial_def dial_client_def
        dial_number_def startsWith_replace_first len del: list.size)
qed

theorem generateOutboundCall_dial_witness:
  "startsWith ''client:alice'' ''client:'' \<and>
   generateOutboundCall ''client:alice'' ''+15551234567'' =
     [Dial \<lparr>callerId = Some ''+15551234567'', timeout = Some 30, action = None,
            answerOnBridge = Some True\<rparr> [Client ''alice'']] \<and>
   \<not> startsWith ''+15559876543'' ''client:'' \<and>
   generateOutboundCall ''+15559876543'' ''+15551234567'' =
     [Dial \<lparr>callerId = Some ''+15551234567'', timeout = Some 30, action = None,
            answerOnBridge = Some True\<rparr> [Number ''+15559876543'']]"
  using generateOutboundCall_dial [of "''client:alice''" "''+15551234567''"]
    generateOutboundCall_dial [of "''+15559876543''" "''+15551234567''"]
  by (simp add: startsWith_def)

text \<open>
  Claim C2, as stated: with no client identity the incoming-call document contains the
  unavailability announcement only, and no dial instruction. The document built for
  \<^verbatim>\<open>null\<close> has three verbs: the hold announcement, a \<open>Dial\<close> verb (appended before
  the identity is tested, and left without a target), and the unavailability
  announcement.
\<close>

theorem generateIncomingCall_no_identity_counterexample:
  "generateIncomingCall None =
     [Say (Some alice_en_US) hold_announcement,
      Dial \<lparr>callerId = None, timeout = Some 30, action = Some ''/api/v1/test-talk/dial-status'',
            answerOnBridge = Some True\<rparr> [],
      Say (Some alice_en_US) unavailable_announcement] \<and>
   \<not> (announcements (generateIncomingCall None) = [unavailable_announcement] \<and>
      dial_verbs (generateIncomingCall None) = [])"
  by (simp add: generateIncomingCall_def createResponse_def say_def dial_def)

text \<open>
  Claim C2, amended. When no client identity is resolved (\<^verbatim>\<open>null\<close>, \<^verbatim>\<open>undefined\<close>
  or the empty string), the document announces the hold message and then the
  unavailability message, these two being its only announcements, and no dial target
  (client or number) is embedded in it.
\<close>

theorem generateIncomingCall_no_identity:
  "clientIdentity = None \<or> clientIdentity = Some [] \<Longrightarrow>
   announcements (generateIncomingCall clientIdentity) =
     [hold_announcement, unavailable_announcement] \<and>
   dial_targets (generateIncomingCall clientIdentity) = []"
  by (auto simp: generateIncomingCall_def createResponse_def say_def dial_def)

theorem generateIncomingCall_no_identity_witness:
  "announcements (generateIncomingCall None) =
     [''Please hold while we connect your call.'',
      ''Sorry, no one is available to take your call right now. Please try again later.''] \<and>
   dial_targets (generateIncomingCall None) = []"
  using generateIncomingCall_no_identity [of None]
  by (simp add: hold_announcement_def unavailable_announcement_def)

text \<open>
  Claim C8. \<open>generateDialStatus\<close> is a total function with no error result: for every
  string it returns a document. The statuses \<open>no-answer\<close>, \<open>busy\<close> and \<open>failed\<close> give
  the apology, \<open>completed\<close> gives the thank-you, and every other string gives the
  generic call-ended announcement.
\<close>

theorem generateDialStatus_announcement:
  "(s \<in> set [''no-answer'', ''busy'', ''failed''] \<longrightarrow>
      generateDialStatus s = [Say None apology_announcement]) \<and>
   (s = ''completed'' \<longrightarrow> generateDialStatus s = [Say None thank_you_announcement]) \<and>
   (s \<notin> set [''no-answer'', ''busy'', ''failed'', ''completed''] \<longrightarrow>
      generateDialStatus s = [Say None call_ended_announcement])"
  by (simp add: generateDialStatus_def createResponse_def say_def)

theorem generateDialStatus_announcement_witness:
  "generateDialStatus ''busy'' = [Say None ''The call could not be completed. Please try again later.''] \<and>
   generateDialStatus ''completed'' = [Say None ''Thank you for calling. Goodbye.''] \<and>
   ''in-progress'' \<notin> set [''no-answer'', ''busy'', ''failed'', ''completed''] \<and>
   generateDialStatus ''in-progress'' = [Say None ''Call ended.'']"
  using generateDialStatus_announcement [of "''busy''"]
    generateDialStatus_announcement [of "''completed''"]
    generateDialStatus_announcement [of "''in-progress''"]
  by (simp add: apology_announcement_def thank_you_announcement_def call_ended_announcement_def)

section \<open>Properties of the call service\<close>

subsection \<open>Status updates\<close>

lemma updateActiveCall_unknown:
  "map_of calls callSid = None \<Longrightarrow> updateActiveCall callSid updates calls = calls"
  by (simp add: updateActiveCall_def)

lemma delete_unknown: "map_of calls k = None \<Longrightarrow> AList.delete k calls = calls"
  by (simp add: map_of_eq_None_iff)

lemma handleCallStatusUpdate_unknown:
  "map_of (activeCalls svc) (CallSid ev) = None \<Longrightarrow>
   handleCallStatusUpdate parseInt ev now svc = svc"
  by (simp add: handleCallStatusUpdate_def Let_def updateActiveCall_unknown delete_unknown)

lemma map_of_delete_same: "map_of (AList.delete k al) k = None"
  by (simp add: AList.delete_conv')

lemma handleCallStatusUpdate_terminal:
  "CallSid ev \<noteq> [] \<Longrightarrow> CallStatus ev \<in> set terminal_statuses \<Longrightarrow>
   map_of (activeCalls (handleCallStatusUpdate parseInt ev now svc)) (CallSid ev) = None"
  by (simp add: handleCallStatusUpdate_def Let_def map_of_delete_same)

lemma handleCallStatusUpdate_ignored:
  "CallSid ev = [] \<Longrightarrow> handleCallStatusUpdate parseInt ev now svc = svc"
  by (simp add: handleCallStatusUpdate_def)

lemma handleCallStatusUpdate_redelivery:
  assumes "CallStatus ev \<in> set terminal_statuses" and "CallSid ev' = CallSid ev"
  shows "handleCallStatusUpdate parseInt ev' now' (handleCallStatusUpdate parseInt ev now svc) =
         handleCallStatusUpdate parseInt ev now svc"
proof (cases "CallSid ev = []")
  case True
  with assms show ?thesis by (simp add: handleCallStatusUpdate_ignored)
next
  case False
  with assms have "map_of (activeCalls (handleCallStatusUpdate parseInt ev now svc)) (CallSid ev')
                     = None"
    by (simp add: handleCallStatusUpdate_terminal)
  then show ?thesis by (rule handleCallStatusUpdate_unknown)
qed

text \<open>
  Claim C6. An update for a call id that is not in the registry leaves the registry
  as it is, and a status update delivered for such an id leaves the whole state of
  the service as it is; in particular a terminal-status event delivered again for
  the same id, after the first delivery removed the session, changes nothing. The
  handler is a total function of the state: it has no error result.
\<close>

theorem status_update_unknown_id_noop:
  "(map_of calls callSid = None \<longrightarrow> updateActiveCall callSid updates calls = calls) \<and>
   (map_of (activeCalls svc) (CallSid ev) = None \<longrightarrow>
      handleCallStatusUpdate parseInt ev now svc = svc) \<and>
   (CallStatus ev \<in> set terminal_statuses \<and> CallSid ev' = CallSid ev \<longrightarrow>
      handleCallStatusUpdate parseInt ev' now' (handleCallStatusUpdate parseInt ev now svc) =
      handleCallStatusUpdate parseInt ev now svc)"
  using updateActiveCall_unknown handleCallStatusUpdate_unknown handleCallStatusUpdate_redelivery
  by blast

theorem status_update_unknown_id_noop_witness:
  "map_of [(''CA1'', ringing_call)] ''CA2'' = None \<and>
   updateActiveCall ''CA2'' [SetStatus ''completed''] [(''CA1'', ringing_call)] =
     [(''CA1'', ringing_call)] \<and>
   map_of (activeCalls one_call_service) (CallSid (completed_event ''CA2'')) = None \<and>
   handleCallStatusUpdate (\<lambda>d. Num 42) (completed_event ''CA2'') 3000 one_call_service =
     one_call_service \<and>
   CallStatus (completed_event ''CA1'') \<in> set terminal_statuses \<and>
   activeCalls (handleCallStatusUpdate (\<lambda>d. Num 42) (completed_event ''CA1'') 3000
                  one_call_service) = [] \<and>
   handleCallStatusUpdate (\<lambda>d. Num 42) (completed_event ''CA1'') 4000
     (handleCallStatusUpdate (\<lambda>d. Num 42) (completed_event ''CA1'') 3000 one_call_service) =
   handleCallStatusUpdate (\<lambda>d. Num 42) (completed_event ''CA1'') 3000 one_call_service"
  using status_update_unknown_id_noop
    [of "[(''CA1'', ringing_call)]" "''CA2''" "[SetStatus ''completed'']" one_call_service
        "completed_event ''CA2''" "\<lambda>d. Num 42" 3000 "completed_event ''CA1''" 4000]
    status_update_unknown_id_noop
    [of "[]" "''CA2''" "[]" one_call_service
        "completed_event ''CA1''" "\<lambda>d. Num 42" 3000 "completed_event ''CA1''" 4000]
  by (simp add: one_call_service_def completed_event_def terminal_statuses_def
      handleCallStatusUpdate_def updateActiveCall_def)

lemma live_update:
  "list_all live calls \<Longrightarrow> live (k, v) \<Longrightarrow> list_all live (AList.update k v calls)"
  by (induction calls) (auto simp: live_def)

lemma live_delete: "list_all live calls \<Longrightarrow> list_all live (AList.delete k calls)"
  by (simp add: AList.delete_eq list_all_iff)

lemma status_spread:
  "status (spread existingCall [SetStatus s, SetDuration d, SetLastUpdated t]) = s"
  by (simp add: spread_def)

lemma live_updateActiveCall:
  assumes "list_all live calls" and "s \<notin> set terminal_statuses"
  shows "list_all live (updateActiveCall k [SetStatus s, SetDuration d, SetLastUpdated t] calls)"
proof (cases "map_of calls k")
  case None
  with assms show ?thesis by (simp add: updateActiveCall_def)
next
  case (Some existingCall)
  have "live (k, spread existingCall [SetStatus s, SetDuration d, SetLastUpdated t])"
    using assms(2) by (simp add: live_def status_spread)
  with assms(1) Some show ?thesis by (simp add: updateActiveCall_def live_update)
qed

lemma delete_updateActiveCall:
  "AList.delete k (updateActiveCall k updates calls) = AList.delete k calls"
  by (simp add: updateActiveCall_def AList.delete_update_same split: option.splits)

lemma live_handleCallStatusUpdate:
  assumes "list_all live (activeCalls svc)"
  shows "list_all live (activeCalls (handleCallStatusUpdate parseInt ev now svc))"
proof (cases "CallStatus ev \<in> set terminal_statuses")
  case True
  with assms show ?thesis
    by (simp add: handleCallStatusUpdate_def Let_def delete_updateActiveCall live_delete)
next
  case False
  with assms show ?thesis
    by (simp add: handleCallStatusUpdate_def Let_def live_updateActiveCall)
qed

lemma makeBrowserToPhoneCall_calls:
  "activeCalls (snd (snd
     (makeBrowserToPhoneCall carr phoneNumber to_addr from_addr baseUrl now created svc))) =
     activeCalls svc \<or>
   (\<exists>callSid callData. status callData = ''initiated'' \<and>
      activeCalls (snd (snd
        (makeBrowserToPhoneCall carr phoneNumber to_addr from_addr baseUrl now created svc))) =
      AList.update callSid callData (activeCalls svc))"
proof (cases "check (rateLimiter svc) (sanitize from_addr) now")
  case (Pair admitted rl)
  show ?thesis
  proof (cases "carr (CreateCall ((if baseUrl \<noteq> [] then baseUrl else ''http://localhost:3000'') @
                        ''/api/v1/test-talk/voice'') (sanitize to_addr) phoneNumber
                      ((if baseUrl \<noteq> [] then baseUrl else ''http://localhost:3000'') @
                        ''/api/v1/test-talk/call-status''))")
    case (Rejected message)
    with Pair show ?thesis by (simp add: makeBrowserToPhoneCall_def Let_def)
  next
    case (Resolved callSid)
    with Pair show ?thesis
      by (simp add: makeBrowserToPhoneCall_def Let_def trackActiveCall_def)
        (metis ActiveCall.select_convs(5))
  qed
qed

lemma live_makeBrowserToPhoneCall:
  assumes "list_all live (activeCalls svc)"
  shows "list_all live (activeCalls (snd (snd
           (makeBrowserToPhoneCall carr phoneNumber to_addr from_addr baseUrl now created svc))))"
proof -
  have init: "\<And>k c. status c = ''initiated'' \<Longrightarrow> live (k, c)"
    by (simp add: terminal_statuses_def live_def)
  from makeBrowserToPhoneCall_calls [of carr phoneNumber to_addr from_addr baseUrl now created svc]
  show ?thesis
    using assms init by (auto simp: live_update)
qed

lemma live_endCall:
  "list_all live (activeCalls svc) \<Longrightarrow>
   list_all live (activeCalls (snd (snd (endCall carr callSid svc))))"
  by (auto simp: endCall_def Let_def live_delete split: carrier_outcome.splits)

lemma live_step:
  "list_all live (activeCalls svc) \<Longrightarrow>
   list_all live (activeCalls (step phoneNumber parseInt svc operation))"
  by (cases operation)
    (simp_all add: live_makeBrowserToPhoneCall live_handleCallStatusUpdate live_endCall
      cleanup_def)

lemma live_foldl:
  "list_all live (activeCalls svc) \<Longrightarrow>
   list_all live (activeCalls (foldl (step phoneNumber parseInt) svc ops))"
  by (induction ops arbitrary: svc) (simp_all add: live_step)

lemma live_run: "list_all live (activeCalls (run phoneNumber parseInt ops))"
  unfolding run_def by (rule live_foldl) (simp add: new_TestTalkService_def)

lemma placed_then_ringing_calls:
  "activeCalls (run ''+15550000000'' (\<lambda>d. Num 42) placed_then_ringing) =
     [(''CA1'', ringing_call\<lparr>createdAt := 1001\<rparr>)]"
  by (simp add: run_def placed_then_ringing_def makeBrowserToPhoneCall_def sanitize_def
      isValid_def is_digit_def startsWith_def check_def new_TestTalkService_def new_RateLimiter_def
      accepting_carrier_def trackActiveCall_def handleCallStatusUpdate_def ringing_event_def
      updateActiveCall_def spread_def terminal_statuses_def ringing_call_def Let_def)

text \<open>
  Claim C5. After \<open>handleCallStatusUpdate\<close> has processed an event (one that carries a
  call id) whose status is terminal, no session is tracked under that call id. The
  handler keeps the registry free of sessions with a terminal status, and in every
  state the service reaches from its initial state, by placing calls, handling status
  updates, ending calls, sweeping the limiter and shutting down, no tracked session
  carries a terminal status.
\<close>

theorem terminal_status_removes_session:
  "(CallSid ev \<noteq> [] \<and> CallStatus ev \<in> set terminal_statuses \<longrightarrow>
      map_of (activeCalls (handleCallStatusUpdate parseInt ev now svc)) (CallSid ev) = None) \<and>
   (list_all live (activeCalls svc) \<longrightarrow>
      list_all live (activeCalls (handleCallStatusUpdate parseInt ev now svc))) \<and>
   list_all live (activeCalls (run phoneNumber parseInt ops))"
  using handleCallStatusUpdate_terminal live_handleCallStatusUpdate live_run by blast

theorem terminal_status_removes_session_witness:
  "CallSid (completed_event ''CA1'') \<noteq> [] \<and>
   CallStatus (completed_event ''CA1'') \<in> set terminal_statuses \<and>
   list_all live (activeCalls one_call_service) \<and>
   map_of (activeCalls (handleCallStatusUpdate (\<lambda>d. Num 42) (completed_event ''CA1'') 3000
                          one_call_service)) ''CA1'' = None \<and>
   list_all live (activeCalls (handleCallStatusUpdate (\<lambda>d. Num 42) (completed_event ''CA1'') 3000
                          one_call_service)) \<and>
   activeCalls (run ''+15550000000'' (\<lambda>d. Num 42) placed_then_ringing) =
     [(''CA1'', ringing_call\<lparr>createdAt := 1001\<rparr>)] \<and>
   list_all live (activeCalls (run ''+15550000000'' (\<lambda>d. Num 42)
                    (placed_then_ringing @ [StatusUpdate (completed_event ''CA1'') 3000])))"
  using terminal_status_removes_session
    [where ev = "completed_event ''CA1''" and parseInt = "\<lambda>d. Num 42" and now = 3000
       and svc = one_call_service and phoneNumber = "''+15550000000''"
       and ops = "placed_then_ringing @ [StatusUpdate (completed_event ''CA1'') 3000]"]
    placed_then_ringing_calls
  by (simp add: completed_event_def terminal_statuses_def one_call_service_def live_def
      ringing_call_def)

subsection \<open>Ending a call\<close>

text \<open>
  Claim C9, as stated: for a non-empty id, \<open>endCall\<close> asks the carrier, removes the id
  from the registry and reports success or failure. When the carrier rejects the
  request the answer is false and the session is still tracked: the rejection leaves
  the \<^verbatim>\<open>try\<close> block before the deletion.
\<close>

theorem endCall_carrier_error_counterexample:
  "endCall rejecting_carrier ''CA1'' one_call_service =
     (False, [UpdateCall ''CA1'' ''completed''], one_call_service) \<and>
   map_of (activeCalls (snd (snd (endCall rejecting_carrier ''CA1'' one_call_service)))) ''CA1'' =
     Some ringing_call"
  by (simp add: endCall_def rejecting_carrier_def one_call_service_def)

text \<open>
  Claim C9, amended. \<open>endCall\<close> answers false without contacting the carrier when the
  id is empty. Otherwise it asks the carrier to mark the call completed; when the
  carrier accepts, it removes the id from the registry and answers true; when the
  carrier rejects, it answers false and leaves the registry as it is. In no case is
  an error passed to the caller: the result is always an answer.
\<close>

theorem endCall_outcome:
  "(callSid = [] \<longrightarrow> endCall carr callSid svc = (False, [], svc)) \<and>
   (callSid \<noteq> [] \<and> carr (UpdateCall callSid ''completed'') = Resolved r \<longrightarrow>
      endCall carr callSid svc =
        (True, [UpdateCall callSid ''completed''],
         svc\<lparr>activeCalls := AList.delete callSid (activeCalls svc)\<rparr>) \<and>
      map_of (activeCalls (snd (snd (endCall carr callSid svc)))) callSid = None) \<and>
   (callSid \<noteq> [] \<and> carr (UpdateCall callSid ''completed'') = Rejected message \<longrightarrow>
      endCall carr callSid svc = (False, [UpdateCall callSid ''completed''], svc))"
  by (simp add: endCall_def Let_def AList.delete_conv')

theorem endCall_outcome_witness:
  "endCall accepting_carrier [] one_call_service = (False, [], one_call_service) \<and>
   accepting_carrier (UpdateCall ''CA1'' ''completed'') = Resolved ''CA1'' \<and>
   endCall accepting_carrier ''CA1'' one_call_service =
     (True, [UpdateCall ''CA1'' ''completed''], one_call_service\<lparr>activeCalls := []\<rparr>) \<and>
   rejecting_carrier (UpdateCall ''CA1'' ''completed'') = Rejected ''carrier unavailable'' \<and>
   endCall rejecting_carrier ''CA1'' one_call_service =
     (False, [UpdateCall ''CA1'' ''completed''], one_call_service)"
  using endCall_outcome [where callSid = "[]" and carr = accepting_carrier
      and svc = one_call_service]
    endCall_outcome [where callSid = "''CA1''" and carr = accepting_carrier and r = "''CA1''"
      and svc = one_call_service]
    endCall_outcome [where callSid = "''CA1''" and carr = rejecting_carrier
      and svc = one_call_service and message = "''carrier unavailable''"]
  by (simp add: accepting_carrier_def rejecting_carrier_def one_call_service_def)

subsection \<open>Statistics\<close>

text \<open>
  What the loop computes: for a status that is not the name of a member of
  \<^verbatim>\<open>Object.prototype\<close> the entry is the number of tracked sessions with that
  status; for a type, the number of tracked sessions of that type; the average is
  zero when no session is counted, and otherwise the double quotient of the double
  sum of the counted durations by their number.
\<close>

lemma stats_step_fields:
  "byStatus (stats_step fadd acc call) = count_key (byStatus acc) (status call)"
  "byType (stats_step fadd acc call) = increment (byType acc) (callType call)"
  "totalDuration (stats_step fadd acc call) =
     foldl fadd (totalDuration acc) (counted_duration call)"
  "completedCalls (stats_step fadd acc call) =
     completedCalls acc + length (counted_duration call)"
  by (cases "duration call" rule: truthy_duration.cases;
      simp add: stats_step_def Let_def split: option.splits)+

lemma count_key_other:
  "s \<noteq> key \<Longrightarrow> count_key obj key s = obj s"
  by (cases "obj key") (auto simp: count_key_def split: property.splits)

lemma count_key_same:
  "key \<notin> set object_prototype_names \<Longrightarrow> obj key = map_option Count (count_entry n) \<Longrightarrow>
   count_key obj key key = Some (Count (Suc n))"
  by (auto simp: count_key_def count_entry_def object_prototype_names_def
      split: option.splits property.splits if_splits)

lemma stats_loop_byStatus:
  assumes "s \<notin> set object_prototype_names"
    and "byStatus acc s = map_option Count (count_entry n)"
  shows "byStatus (stats_loop fadd acc calls) s =
           map_option Count (count_entry (n + length (filter (\<lambda>c. status c = s) calls)))"
  using assms(2)
proof (induction calls arbitrary: acc n)
  case Nil
  then show ?case by simp
next
  case (Cons call calls)
  show ?case
  proof (cases "status call = s")
    case True
    have "count_key (byStatus acc) s s = Some (Count (Suc n))"
      using assms(1) Cons.prems
      by (rule count_key_same [where obj = "byStatus acc" and key = s and n = n])
    with True have "byStatus (stats_step fadd acc call) s =
        map_option Count (count_entry (Suc n))"
      by (simp add: stats_step_fields count_entry_def)
    from Cons.IH [OF this] True show ?thesis by simp
  next
    case False
    then have "byStatus (stats_step fadd acc call) s = map_option Count (count_entry n)"
      using Cons.prems by (simp add: stats_step_fields count_key_other)
    from Cons.IH [OF this] False show ?thesis by simp
  qed
qed

lemma stats_loop_byType:
  "byType (stats_loop fadd acc calls) ty =
     (let n = length (filter (\<lambda>c. callType c = ty) calls)
      in if n = 0 then byType acc ty else Some (or_zero (byType acc ty) + n))"
  by (induction calls arbitrary: acc) (simp_all add: stats_step_fields increment_def Let_def)

lemma stats_loop_totalDuration:
  "totalDuration (stats_loop fadd acc calls) =
     foldl fadd (totalDuration acc) (concat (map counted_duration calls))"
  by (induction calls arbitrary: acc) (simp_all add: stats_step_fields del: counted_duration.simps)

lemma stats_loop_completedCalls:
  "completedCalls (stats_loop fadd acc calls) =
     completedCalls acc + length (concat (map counted_duration calls))"
  by (induction calls arbitrary: acc) (simp_all add: stats_step_fields del: counted_duration.simps)

lemma getCallStatistics_byStatus:
  "s \<notin> set object_prototype_names \<Longrightarrow>
   callsByStatus (getCallStatistics fadd fdiv svc) s =
     map_option Count
       (count_entry (length (filter (\<lambda>c. status c = s) (map snd (activeCalls svc)))))"
  using stats_loop_byStatus [where n = 0 and s = s and fadd = fadd
      and acc = "\<lparr>byStatus = Map.empty, byType = Map.empty, totalDuration = 0, completedCalls = 0\<rparr>"
      and calls = "map snd (activeCalls svc)"]
  by (simp add: getCallStatistics_def Let_def count_entry_def)

lemma getCallStatistics_byType:
  "callsByType (getCallStatistics fadd fdiv svc) ty =
     count_entry (length (filter (\<lambda>c. callType c = ty) (map snd (activeCalls svc))))"
  by (simp add: getCallStatistics_def Let_def stats_loop_byType count_entry_def)

lemma getCallStatistics_average:
  "averageCallDuration (getCallStatistics fadd fdiv svc) =
     (let ds = concat (map counted_duration (map snd (activeCalls svc)))
      in if ds = [] then 0 else fdiv (foldl fadd 0 ds) (length ds))"
  by (simp add: getCallStatistics_def Let_def stats_loop_totalDuration stats_loop_completedCalls
      del: counted_duration.simps)

lemma placed_then_status_calls:
  "activeCalls (run ''+15550000000'' (\<lambda>d. Num 42) (placed_then_status ''__proto__'')) =
     [(''CA1'', ringing_call\<lparr>status := ''__proto__'', createdAt := 1001\<rparr>)]"
  "activeCalls (run ''+15550000000'' (\<lambda>d. Num 42) (placed_then_status ''constructor'')) =
     [(''CA1'', ringing_call\<lparr>status := ''constructor'', createdAt := 1001\<rparr>)]"
  by (simp_all add: run_def placed_then_status_def makeBrowserToPhoneCall_def sanitize_def
      isValid_def is_digit_def startsWith_def check_def new_TestTalkService_def new_RateLimiter_def
      accepting_carrier_def trackActiveCall_def handleCallStatusUpdate_def named_event_def
      updateActiveCall_def spread_def terminal_statuses_def ringing_call_def Let_def)

text \<open>
  Claim C3 says that \<open>getCallStatistics\<close> reports the count of tracked sessions grouped
  by status. The code counts in a plain object, and a status that names a member of
  \<^verbatim>\<open>Object.prototype\<close> is not counted. A call is placed and a status update with
  the status \<^verbatim>\<open>__proto__\<close> is delivered for it: one session is tracked with that
  status, and the statistics hold no entry at all. With the status
  \<^verbatim>\<open>constructor\<close> the entry is a string, not the count 1.
\<close>

theorem getCallStatistics_prototype_status:
  "map (status \<circ> snd)
     (activeCalls (run ''+15550000000'' (\<lambda>d. Num 42) (placed_then_status ''__proto__''))) =
     [''__proto__''] \<and>
   callsByStatus
     (getCallStatistics exact_add exact_div
        (run ''+15550000000'' (\<lambda>d. Num 42) (placed_then_status ''__proto__''))) = Map.empty \<and>
   map (status \<circ> snd)
     (activeCalls (run ''+15550000000'' (\<lambda>d. Num 42) (placed_then_status ''constructor''))) =
     [''constructor''] \<and>
   callsByStatus
     (getCallStatistics exact_add exact_div
        (run ''+15550000000'' (\<lambda>d. Num 42) (placed_then_status ''constructor''))) =
     [''constructor'' \<mapsto> Text]"
  by (simp add: placed_then_status_calls getCallStatistics_def stats_step_def count_key_def
      object_prototype_names_def ringing_call_def Let_def)

end
